theory Spec2Isabelle
  imports Main
begin

section \<open>JavaScript values used by \<open>post-parent.js\<close>\<close>

text \<open>
  The module reads strings (the \<open>value\<close> and \<open>className\<close> of DOM nodes) and numbers
  (post ids). Numbers are modelled as mathematical integers: every number the module
  computes is an integer, and IEEE doubles are exact on the integers of magnitude up to
  \<open>2^53\<close>. Beyond that an engine rounds, so a theorem that gives the value of a number read
  from a string carries the bound \<open>2^53\<close> as a hypothesis. \<open>NaN\<close> is the value \<open>None\<close> of
  \<open>int option\<close>. Strings are lists of 8-bit characters (Latin-1).
\<close>

datatype js_value = JUndefined | JNumber int | JString string

datatype error = TypeError

subsection \<open>\<open>ToString\<close> on the values above\<close>

fun dec_string :: "nat \<Rightarrow> string" where
  "dec_string n =
     (if n < 10 then [char_of (48 + n)]
      else dec_string (n div 10) @ [char_of (48 + n mod 10)])"

declare dec_string.simps [simp del]

text \<open>
  From \<open>10^21\<close> on a number prints in exponent notation: the first digit, then \<open>.\<close> and
  the other significant digits if there are any, then \<open>e+\<close> and the exponent. The digits
  are taken from the integer itself.
\<close>

definition exp_string :: "nat \<Rightarrow> string" where
  "exp_string m =
     (let ds = dec_string m;
          significant = rev (dropWhile (\<lambda>c. c = CHR ''0'') (rev ds))
      in hd ds # (if tl significant = [] then [] else CHR ''.'' # tl significant)
           @ ''e+'' @ dec_string (length ds - 1))"

definition number_string :: "nat \<Rightarrow> string" where
  "number_string m = (if m < 1000000000000000000000 then dec_string m else exp_string m)"

definition ToString :: "js_value \<Rightarrow> string" where
  "ToString v =
     (case v of
        JUndefined \<Rightarrow> ''undefined''
      | JNumber n \<Rightarrow>
          (if n < 0 then CHR ''-'' # number_string (nat (- n)) else number_string (nat n))
      | JString s \<Rightarrow> s)"

subsection \<open>\<open>parseInt( v, 10 )\<close>\<close>

text \<open>
  ECMAScript \<open>parseInt\<close> with radix 10: convert the argument to a string, drop leading
  white space, read an optional sign, take the longest prefix of decimal digits; the
  result is \<open>NaN\<close> when that prefix is empty and the signed decimal value otherwise.
  The value is the exact one; it is the number an engine returns when its magnitude is
  at most \<open>2^53\<close>. White space is the part of \<open>StrWhiteSpaceChar\<close> below \<open>256\<close>.
\<close>

definition is_space :: "char \<Rightarrow> bool" where
  "is_space c =
     (c \<in> set [CHR 0x09, CHR 0x0A, CHR 0x0B, CHR 0x0C, CHR 0x0D, CHR '' '', CHR 0xA0])"

definition is_digit :: "char \<Rightarrow> bool" where
  "is_digit c = (48 \<le> (of_char c :: nat) \<and> (of_char c :: nat) \<le> 57)"

definition digit_val :: "char \<Rightarrow> int" where
  "digit_val c = int (of_char c) - 48"

definition dec_value :: "string \<Rightarrow> int" where
  "dec_value ds = foldl (\<lambda>a c. 10 * a + digit_val c) 0 ds"

definition parseInt_string :: "string \<Rightarrow> int option" where
  "parseInt_string inputString =
     (let S = dropWhile is_space inputString;
          sign = (if S \<noteq> [] \<and> hd S = CHR ''-'' then - 1 else 1);
          S' = (if S \<noteq> [] \<and> (hd S = CHR ''+'' \<or> hd S = CHR ''-'') then tl S else S);
          Z = takeWhile is_digit S'
      in if Z = [] then None else Some (sign * dec_value Z))"

definition parseInt :: "js_value \<Rightarrow> int option" where
  "parseInt v = parseInt_string (ToString v)"

section \<open>The position state\<close>

record position_state =
  post_ancestors :: "int list"
  post_parent_id :: int
  post_level :: int

definition INITIAL_STATE :: position_state where
  "INITIAL_STATE = \<lparr> post_ancestors = [], post_parent_id = 0, post_level = 1 \<rparr>"

section \<open>Classic editor: the \<open>select#parent_id\<close> option list\<close>

text \<open>
  A DOM node of the option list with the three properties the module reads. A node that
  is not an element (the white-space text between two options) has no \<open>className\<close> and
  no \<open>value\<close>: both read as \<open>undefined\<close>. \<open>previousSibling\<close> is \<open>null\<close> at the first
  child.
\<close>

datatype node =
  Node (className: "string option") (option_value: js_value) (previousSibling: "node option")

record select_node =
  options :: "node list"
  selectedIndex :: int

text \<open>\<open>className.match( /^level-(\d+)/ )\<close>: the first capture group, when the match succeeds.\<close>

definition match_level :: "string \<Rightarrow> string option" where
  "match_level c =
     (let digits = takeWhile is_digit (drop 6 c)
      in if take 6 c = ''level-'' \<and> digits \<noteq> [] then Some digits else None)"

definition getParentIdFromOption :: "node \<Rightarrow> int" where
  "getParentIdFromOption opt =
     (case parseInt (option_value opt) of
        Some v \<Rightarrow> v
      | None \<Rightarrow> 0)"

text \<open>
  \<open>parseInt( matches[ 1 ], 10 )\<close> reads a non-empty run of digits, so it is never \<open>NaN\<close>
  (lemma \<open>parseInt_match_level\<close> below); the \<open>None\<close> branch of the inner case is not
  reachable.
\<close>

definition getLevelFromOption :: "node \<Rightarrow> int" where
  "getLevelFromOption opt =
     (case className opt of
        None \<Rightarrow> 0
      | Some c \<Rightarrow>
          if c = [] then 0
          else (case match_level c of
                  None \<Rightarrow> 0
                | Some m \<Rightarrow> (case parseInt (JString m) of Some d \<Rightarrow> d + 1 | None \<Rightarrow> 0)))"

text \<open>
  The \<open>while\<close> loop of \<open>getAncestorsFromOption\<close>, on its three variables \<open>level\<close>,
  \<open>previousOption\<close> and \<open>ancestors\<close>. Both branches of the body move \<open>previousOption\<close>
  to its previous sibling.
\<close>

fun ancestors_loop :: "int \<Rightarrow> node option \<Rightarrow> int list \<Rightarrow> int list" where
  "ancestors_loop level None ancestors = ancestors"
| "ancestors_loop level (Some (Node c v prev)) ancestors =
     (if level > 0 then
        (if getLevelFromOption (Node c v prev) \<noteq> level then
           ancestors_loop level prev ancestors
         else
           ancestors_loop (level - 1) prev
             (case parseInt v of
                Some i \<Rightarrow> if i > 0 then i # ancestors else ancestors
              | None \<Rightarrow> ancestors))
      else ancestors)"

definition getAncestorsFromOption :: "node \<Rightarrow> int list" where
  "getAncestorsFromOption opt = ancestors_loop (getLevelFromOption opt) (Some opt) []"

text \<open>
  \<open>node.options[ node.selectedIndex ]\<close> is \<open>undefined\<close> when the index is out of range
  (\<open>-1\<close> when nothing is selected).
\<close>

definition selected_option :: "select_node \<Rightarrow> node option" where
  "selected_option node =
     (if 0 \<le> selectedIndex node \<and> selectedIndex node < int (length (options node))
      then Some (options node ! nat (selectedIndex node))
      else None)"

text \<open>
  With an \<open>undefined\<close> option the first property read, \<open>option.className\<close> in
  \<open>getLevelFromOption\<close>, throws a \<open>TypeError\<close>.
\<close>

definition getParentIdAncestorsAndLevelFromSelect :: "select_node \<Rightarrow> error + position_state" where
  "getParentIdAncestorsAndLevelFromSelect node =
     (case selected_option node of
        None \<Rightarrow> Inl TypeError
      | Some opt \<Rightarrow>
          Inr \<lparr> post_ancestors = getAncestorsFromOption opt,
                post_parent_id = getParentIdFromOption opt,
                post_level = getLevelFromOption opt + 1 \<rparr>)"

text \<open>
  The first value of the classic filter: \<open>document.querySelector\<close> gives the select
  node or \<open>null\<close>.
\<close>

definition classic_startWith :: "select_node option \<Rightarrow> error + position_state" where
  "classic_startWith q =
     (case q of
        None \<Rightarrow> Inr INITIAL_STATE
      | Some node \<Rightarrow> getParentIdAncestorsAndLevelFromSelect node)"

section \<open>Block editor: the record list\<close>

record post_record =
  id_prop :: int
  parent_prop :: int

record post_type =
  hierarchical :: bool

record query =
  per_page :: int
  exclude :: int
  parent_exclude :: int
  orderby :: string
  order :: string

text \<open>
  \<open>getAncestorsFromPostsList\<close> recurses along the \<open>parent\<close> links and has no bound of its
  own, so it is a partial function: \<open>None\<close> is the call that never returns (in an
  engine, the call that ends when the stack is exhausted).
  \<open>find( posts, [ 'id', parentId ] )\<close> is the first record whose \<open>id\<close> equals
  \<open>parentId\<close>; \<open>parent.parent\<close> is falsy exactly when it is \<open>0\<close>.
\<close>

partial_function (option) getAncestorsFromPostsList ::
  "int \<Rightarrow> post_record list \<Rightarrow> int list \<Rightarrow> int list option" where
  "getAncestorsFromPostsList parentId posts ancestors =
     (case find (\<lambda>p. id_prop p = parentId) posts of
        None \<Rightarrow> Some ancestors
      | Some parent \<Rightarrow>
          if parent_prop parent \<noteq> 0
          then getAncestorsFromPostsList (parent_prop parent) posts (id_prop parent # ancestors)
          else Some (id_prop parent # ancestors))"

text \<open>
  The \<open>map\<close> callback of the block-editor filter. The two selectors of the \<open>core\<close> store
  are parameters; \<open>getPostType\<close> gives \<open>undefined\<close> and \<open>getEntityRecords\<close> gives \<open>null\<close>
  while the store is loading.
\<close>

definition gutenberg_map ::
  "(string \<Rightarrow> post_type option) \<Rightarrow> (string \<Rightarrow> string \<Rightarrow> query \<Rightarrow> post_record list option)
     \<Rightarrow> int \<times> string \<times> js_value \<Rightarrow> position_state option" where
  "gutenberg_map getPostType getEntityRecords triple =
     (case triple of (postId, postTypeSlug, parentAttr) \<Rightarrow>
        (case parseInt parentAttr of
           None \<Rightarrow> Some INITIAL_STATE
         | Some parentId \<Rightarrow>
             let isHierarchical =
                   (case getPostType postTypeSlug of None \<Rightarrow> False | Some t \<Rightarrow> hierarchical t)
             in if \<not> isHierarchical then Some INITIAL_STATE
                else
                  let items =
                        (case getEntityRecords ''postType'' postTypeSlug
                                \<lparr> per_page = - 1, exclude = postId, parent_exclude = postId,
                                  orderby = ''menu_order'', order = ''asc'' \<rparr> of
                           None \<Rightarrow> []
                         | Some recs \<Rightarrow> recs)
                  in (case getAncestorsFromPostsList parentId items [] of
                        None \<Rightarrow> None
                      | Some ancestors \<Rightarrow>
                          Some \<lparr> post_ancestors = ancestors,
                                 post_parent_id = parentId,
                                 post_level = int (length ancestors) + 1 \<rparr>)))"

section \<open>Notions used to state the properties\<close>

subsection \<open>The backward walk over the option list, as the specification words it\<close>

text \<open>
  Starting at the selected option with \<open>remaining\<close> levels to find, a node whose own
  level differs from \<open>remaining\<close> is skipped; a node whose level equals it is an ancestor
  step, after which \<open>remaining\<close> is one less. \<open>matched_steps\<close> lists the ancestor steps
  in the order they are met; a step has a valid id when its parsed id is a positive
  number.
\<close>

fun matched_steps :: "int \<Rightarrow> node option \<Rightarrow> node list" where
  "matched_steps remaining None = []"
| "matched_steps remaining (Some (Node c v prev)) =
     (if remaining > 0 then
        (if getLevelFromOption (Node c v prev) \<noteq> remaining then matched_steps remaining prev
         else Node c v prev # matched_steps (remaining - 1) prev)
      else [])"

definition valid_id :: "node \<Rightarrow> bool" where
  "valid_id n = (case parseInt (option_value n) of Some i \<Rightarrow> i > 0 | None \<Rightarrow> False)"

subsection \<open>Acyclic record lists and the walk along the parent links\<close>

text \<open>
  The links the recursion follows: from the \<open>id\<close> of a record to its non-zero \<open>parent\<close>.
  A record list is acyclic when no chain of links leads from an id back to itself.
\<close>

definition parent_links :: "post_record list \<Rightarrow> (int \<times> int) set" where
  "parent_links posts =
     {(parent_prop r, id_prop r) | r. r \<in> set posts \<and> parent_prop r \<noteq> 0}"

definition acyclic_posts :: "post_record list \<Rightarrow> bool" where
  "acyclic_posts posts = acyclic (parent_links posts)"

text \<open>
  \<open>parent_walk posts p ids\<close>: \<open>ids\<close> is the list of ids resolved when walking up from
  \<open>p\<close>, nearest first. The walk ends exactly where the id at hand has no matching
  record, or where the record it resolves to has no parent.
\<close>

fun parent_walk :: "post_record list \<Rightarrow> int \<Rightarrow> int list \<Rightarrow> bool" where
  "parent_walk posts p [] = (find (\<lambda>r. id_prop r = p) posts = None)"
| "parent_walk posts p (x # xs) =
     (case find (\<lambda>r. id_prop r = p) posts of
        None \<Rightarrow> False
      | Some r \<Rightarrow> x = id_prop r \<and>
          (if parent_prop r \<noteq> 0 then parent_walk posts (parent_prop r) xs else xs = []))"

text \<open>
  The links the recursion really follows: from an id to the non-zero \<open>parent\<close> of the
  first record with that id. The walk from \<open>p\<close> meets a cycle when it reaches an id from
  which it comes back to that same id.
\<close>

definition followed_links :: "post_record list \<Rightarrow> (int \<times> int) set" where
  "followed_links posts =
     {(q, parent_prop r) | q r.
        find (\<lambda>x. id_prop x = q) posts = Some r \<and> parent_prop r \<noteq> 0}"

definition meets_cycle :: "post_record list \<Rightarrow> int \<Rightarrow> bool" where
  "meets_cycle posts p =
     (\<exists>q. (p, q) \<in> (followed_links posts)\<^sup>* \<and> (q, q) \<in> (followed_links posts)\<^sup>+)"

subsection \<open>The scenarios of the specification\<close>

definition shadowed_cycle_records :: "post_record list" where
  "shadowed_cycle_records =
     [\<lparr> id_prop = 2, parent_prop = 0 \<rparr>, \<lparr> id_prop = 1, parent_prop = 1 \<rparr>]"


definition scenario_records :: "post_record list" where
  "scenario_records =
     [\<lparr> id_prop = 5, parent_prop = 0 \<rparr>,
      \<lparr> id_prop = 9, parent_prop = 5 \<rparr>,
      \<lparr> id_prop = 20, parent_prop = 9 \<rparr>]"

definition self_parent_records :: "post_record list" where
  "self_parent_records = [\<lparr> id_prop = 1, parent_prop = 1 \<rparr>]"

definition hierarchical_type :: "string \<Rightarrow> post_type option" where
  "hierarchical_type slug = Some \<lparr> hierarchical = True \<rparr>"

definition flat_type :: "string \<Rightarrow> post_type option" where
  "flat_type slug = Some \<lparr> hierarchical = False \<rparr>"

definition records_store :: "post_record list \<Rightarrow> string \<Rightarrow> string \<Rightarrow> query \<Rightarrow> post_record list option" where
  "records_store recs kind slug q = Some recs"

definition scenario_option1 :: node where
  "scenario_option1 = Node (Some ''level-0'') (JString ''1'') None"

definition scenario_option2 :: node where
  "scenario_option2 = Node (Some ''level-1'') (JString ''2'') (Some scenario_option1)"

definition scenario_option3 :: node where
  "scenario_option3 = Node (Some ''level-1'') (JString ''3'') (Some scenario_option2)"

definition scenario_select :: select_node where
  "scenario_select =
     \<lparr> options = [scenario_option1, scenario_option2, scenario_option3], selectedIndex = 2 \<rparr>"

definition top_option :: node where
  "top_option = Node (Some ''level-0'') (JString ''7'') None"

definition top_select :: select_node where
  "top_select = \<lparr> options = [top_option], selectedIndex = 0 \<rparr>"

text \<open>The \<open>(no parent)\<close> entry of the list: no class, empty value.\<close>

definition no_parent_option :: node where
  "no_parent_option = Node (Some []) (JString []) None"

definition no_parent_select :: select_node where
  "no_parent_select = \<lparr> options = [no_parent_option, top_option], selectedIndex = 0 \<rparr>"

definition negative_option :: node where
  "negative_option = Node (Some []) (JString ''-5'') None"

definition negative_select :: select_node where
  "negative_select = \<lparr> options = [negative_option], selectedIndex = 0 \<rparr>"

definition empty_select :: select_node where
  "empty_select = \<lparr> options = [], selectedIndex = - 1 \<rparr>"

section \<open>Parsing lemmas\<close>

lemma is_digit_not_space: "is_digit c \<Longrightarrow> \<not> is_space c"
  by (auto simp: is_digit_def is_space_def)

lemma is_digit_not_sign: "is_digit c \<Longrightarrow> c \<noteq> CHR ''-'' \<and> c \<noteq> CHR ''+''"
  by (auto simp: is_digit_def)

lemma takeWhile_digits_append:
  "list_all is_digit ds \<Longrightarrow> rest = [] \<or> \<not> is_digit (hd rest) \<Longrightarrow>
   takeWhile is_digit (ds @ rest) = ds"
  by (induction ds) (auto simp: takeWhile_eq_Nil_iff neq_Nil_conv)

lemma parseInt_string_digits:
  assumes "ds \<noteq> []" "list_all is_digit ds" "rest = [] \<or> \<not> is_digit (hd rest)"
  shows "parseInt_string (ds @ rest) = Some (dec_value ds)"
proof -
  from assms obtain d ds' where ds: "ds = d # ds'" and d: "is_digit d"
    by (cases ds) auto
  have tw: "takeWhile is_digit (ds @ rest) = ds"
    using assms by (simp add: takeWhile_digits_append)
  have dw: "dropWhile is_space (ds @ rest) = ds @ rest"
    using d ds by (simp add: is_digit_not_space)
  show ?thesis
    unfolding parseInt_string_def dw Let_def
    using d ds tw assms(1) is_digit_not_sign[OF d] by simp
qed

lemma parseInt_string_minus_digits:
  assumes "ds \<noteq> []" "list_all is_digit ds"
  shows "parseInt_string (CHR ''-'' # ds) = Some (- dec_value ds)"
  using assms takeWhile_digits_append[of ds "[]"]
  by (simp add: parseInt_string_def is_space_def Let_def del: takeWhile_eq_all_conv)

lemma match_level_Some:
  "match_level c = Some m \<Longrightarrow> m \<noteq> [] \<and> list_all is_digit m"
  by (auto simp: match_level_def Let_def list_all_iff split: if_splits dest: set_takeWhileD)

lemma parseInt_match_level:
  "match_level c = Some m \<Longrightarrow> parseInt (JString m) = Some (dec_value m)"
  using parseInt_string_digits[of m "[]"] match_level_Some[of c m]
  by (simp add: parseInt_def ToString_def)

lemma match_level_encoded:
  assumes "ds \<noteq> []" "list_all is_digit ds" "rest = [] \<or> \<not> is_digit (hd rest)"
  shows "match_level (''level-'' @ ds @ rest) = Some ds"
  using assms takeWhile_digits_append[of ds rest] by (simp add: match_level_def)

lemma digit_char:
  "k < 10 \<Longrightarrow> is_digit (char_of (48 + k)) \<and> digit_val (char_of (48 + k)) = int k"
  by (simp add: is_digit_def digit_val_def)

lemma dec_value_snoc: "dec_value (ds @ [c]) = 10 * dec_value ds + digit_val c"
  by (simp add: dec_value_def)

lemma dec_value_nonneg: "list_all is_digit ds \<Longrightarrow> 0 \<le> dec_value ds"
proof (induction ds rule: rev_induct)
  case Nil
  then show ?case by (simp add: dec_value_def)
next
  case (snoc c ds)
  then show ?case by (simp add: dec_value_snoc is_digit_def digit_val_def)
qed

lemma dec_string_digits: "dec_string n \<noteq> [] \<and> list_all is_digit (dec_string n)"
proof (induction n rule: dec_string.induct)
  case (1 n)
  show ?case
  proof (cases "n < 10")
    case True
    then show ?thesis
      using digit_char[of n] by (subst dec_string.simps, subst dec_string.simps) simp
  next
    case False
    then show ?thesis
      using 1 digit_char[of "n mod 10"]
      by (subst dec_string.simps, subst dec_string.simps) simp
  qed
qed

lemma dec_value_dec_string: "dec_value (dec_string n) = int n"
proof (induction n rule: dec_string.induct)
  case (1 n)
  show ?case
  proof (cases "n < 10")
    case True
    then show ?thesis
      using digit_char[of n] by (subst dec_string.simps) (simp add: dec_value_def)
  next
    case False
    then show ?thesis
      using 1 digit_char[of "n mod 10"]
      by (subst dec_string.simps) (simp add: dec_value_snoc, arith)
  qed
qed

text \<open>An integer below \<open>10^21\<close> survives the round trip through its decimal string.\<close>

lemma parseInt_JNumber:
  assumes "\<bar>n\<bar> < 1000000000000000000000"
  shows "parseInt (JNumber n) = Some n"
proof (cases "n < 0")
  case True
  have "nat (- n) < 1000000000000000000000"
    using assms True by linarith
  then have "number_string (nat (- n)) = dec_string (nat (- n))"
    by (simp add: number_string_def)
  then show ?thesis
    using True parseInt_string_minus_digits[of "dec_string (nat (- n))"]
      dec_string_digits[of "nat (- n)"]
    by (simp add: parseInt_def ToString_def dec_value_dec_string)
next
  case False
  have "nat n < 1000000000000000000000"
    using assms False by linarith
  then have "number_string (nat n) = dec_string (nat n)"
    by (simp add: number_string_def)
  then show ?thesis
    using False parseInt_string_digits[of "dec_string (nat n)" "[]"] dec_string_digits[of "nat n"]
    by (simp add: parseInt_def ToString_def dec_value_dec_string)
qed

lemma parseInt_JUndefined: "parseInt JUndefined = None"
  by (simp add: parseInt_def ToString_def parseInt_string_def is_space_def is_digit_def)

section \<open>The record list: termination and shape of the ancestor chain\<close>

lemma finite_parent_links: "finite (parent_links posts)"
proof -
  have "parent_links posts \<subseteq> (\<lambda>r. (parent_prop r, id_prop r)) ` set posts"
    by (auto simp: parent_links_def)
  then show ?thesis by (rule finite_subset) simp
qed

lemma wf_parent_links: "acyclic_posts posts \<Longrightarrow> wf (parent_links posts)"
  by (simp add: acyclic_posts_def finite_acyclic_wf finite_parent_links)

lemma find_id_Some:
  "find (\<lambda>r. id_prop r = p) posts = Some r \<Longrightarrow> r \<in> set posts \<and> id_prop r = p"
  by (auto simp: find_Some_iff)

lemma find_id_None:
  "find (\<lambda>r. id_prop r = p) posts = None \<longleftrightarrow> (\<forall>r \<in> set posts. id_prop r \<noteq> p)"
  by (auto simp: find_None_iff)

text \<open>
  Well-founded induction along the parent links: on an acyclic list every call returns,
  and what it prepends to the accumulator is the walk up from \<open>p\<close>, root first.
\<close>

lemma getAncestorsFromPostsList_walk:
  assumes "acyclic_posts posts"
  shows "\<exists>ids. getAncestorsFromPostsList p posts acc = Some (rev ids @ acc) \<and>
               parent_walk posts p ids"
  using wf_parent_links[OF assms]
proof (induction p arbitrary: acc rule: wf_induct_rule)
  case (less p)
  show ?case
  proof (cases "find (\<lambda>r. id_prop r = p) posts")
    case None
    then have "getAncestorsFromPostsList p posts acc = Some (rev [] @ acc)"
      by (subst getAncestorsFromPostsList.simps) simp
    moreover have "parent_walk posts p []" using None by simp
    ultimately show ?thesis by blast
  next
    case (Some r)
    note r = find_id_Some[OF Some]
    show ?thesis
    proof (cases "parent_prop r = 0")
      case True
      have "getAncestorsFromPostsList p posts acc = Some (rev [p] @ acc)"
        using Some True r by (subst getAncestorsFromPostsList.simps) simp
      moreover have "parent_walk posts p [p]" using Some True r by simp
      ultimately show ?thesis by blast
    next
      case False
      then have "(parent_prop r, p) \<in> parent_links posts"
        using r by (auto simp: parent_links_def)
      from less[OF this, of "p # acc"] obtain ids where
        ids: "getAncestorsFromPostsList (parent_prop r) posts (p # acc) = Some (rev ids @ p # acc)"
        and w: "parent_walk posts (parent_prop r) ids"
        by blast
      have "getAncestorsFromPostsList p posts acc = Some (rev (p # ids) @ acc)"
        using Some False r ids by (subst getAncestorsFromPostsList.simps) simp
      moreover have "parent_walk posts p (p # ids)" using Some False r w by simp
      ultimately show ?thesis by blast
    qed
  qed
qed

lemma parent_walk_hd:
  "parent_walk posts p ids \<Longrightarrow> find (\<lambda>r. id_prop r = p) posts \<noteq> None \<Longrightarrow>
     ids \<noteq> [] \<and> hd ids = p"
  by (cases ids) (auto split: option.splits dest: find_id_Some)

text \<open>A record that is its own parent: no call on it ever returns.\<close>

lemma self_parent_no_result:
  assumes "getAncestorsFromPostsList p posts acc = Some y"
  shows "\<not> (p = 1 \<and> posts = self_parent_records)"
  unfolding self_parent_records_def
  by (rule getAncestorsFromPostsList.raw_induct[OF _ assms])
     (fastforce split: option.splits if_splits)

lemma self_parent_diverges: "getAncestorsFromPostsList 1 self_parent_records acc = None"
  using self_parent_no_result[of 1 self_parent_records acc]
  by (cases "getAncestorsFromPostsList 1 self_parent_records acc") auto

lemma acyclic_scenario_records: "acyclic_posts scenario_records"
  unfolding acyclic_posts_def
  by (rule acyclicI_order[where f = uminus])
     (auto simp: parent_links_def scenario_records_def)

lemma gutenberg_map_gate_passed:
  assumes "parseInt parentAttr = Some parentId"
    and "getPostType slug = Some t" and "hierarchical t"
    and "getEntityRecords ''postType'' slug
           \<lparr> per_page = - 1, exclude = postId, parent_exclude = postId,
             orderby = ''menu_order'', order = ''asc'' \<rparr> = Some posts"
  shows "gutenberg_map getPostType getEntityRecords (postId, slug, parentAttr) =
           map_option (\<lambda>ancestors. \<lparr> post_ancestors = ancestors, post_parent_id = parentId,
                                       post_level = int (length ancestors) + 1 \<rparr>)
             (getAncestorsFromPostsList parentId posts [])"
  using assms by (simp add: gutenberg_map_def split: option.splits)

section \<open>The record list: the walk returns exactly when it meets no cycle\<close>

lemma followed_links_iff:
  "(q, a) \<in> followed_links posts \<longleftrightarrow>
     (\<exists>r. find (\<lambda>x. id_prop x = q) posts = Some r \<and> parent_prop r \<noteq> 0 \<and> a = parent_prop r)"
  by (auto simp: followed_links_def)

lemma finite_followed_links: "finite (followed_links posts)"
proof -
  have "followed_links posts \<subseteq> (\<lambda>r. (id_prop r, parent_prop r)) ` set posts"
    by (auto simp: followed_links_def dest!: find_id_Some)
  then show ?thesis by (rule finite_subset) simp
qed

lemma no_link_no_cycle:
  assumes "\<And>a. (p, a) \<notin> followed_links posts"
  shows "\<not> meets_cycle posts p"
proof
  assume "meets_cycle posts p"
  then obtain q where r: "(p, q) \<in> (followed_links posts)\<^sup>*"
    and c: "(q, q) \<in> (followed_links posts)\<^sup>+"
    by (auto simp: meets_cycle_def)
  from r assms have "q = p"
    by (auto elim: converse_rtranclE)
  with c obtain a where "(p, a) \<in> followed_links posts"
    by (auto dest: tranclD)
  with assms show False by blast
qed

lemma meets_cycle_step:
  assumes f: "find (\<lambda>x. id_prop x = p) posts = Some r" and n: "parent_prop r \<noteq> 0"
  shows "meets_cycle posts p \<longleftrightarrow> meets_cycle posts (parent_prop r)"
proof
  have e: "(p, parent_prop r) \<in> followed_links posts"
    using f n by (auto simp: followed_links_iff)
  have u: "a = parent_prop r" if "(p, a) \<in> followed_links posts" for a
    using that f by (auto simp: followed_links_iff)
  {
    assume "meets_cycle posts p"
    then obtain q where r: "(p, q) \<in> (followed_links posts)\<^sup>*"
      and c: "(q, q) \<in> (followed_links posts)\<^sup>+"
      by (auto simp: meets_cycle_def)
    have "(parent_prop r, q) \<in> (followed_links posts)\<^sup>*"
    proof (cases "q = p")
      case True
      from c True obtain a where "(p, a) \<in> followed_links posts"
        and "(a, p) \<in> (followed_links posts)\<^sup>*"
        by (auto dest: tranclD)
      with u True show ?thesis by auto
    next
      case False
      with r obtain a where "(p, a) \<in> followed_links posts"
        and "(a, q) \<in> (followed_links posts)\<^sup>*"
        by (auto elim: converse_rtranclE)
      with u show ?thesis by auto
    qed
    with c show "meets_cycle posts (parent_prop r)"
      by (auto simp: meets_cycle_def)
  }
  {
    assume "meets_cycle posts (parent_prop r)"
    then obtain q where r: "(parent_prop r, q) \<in> (followed_links posts)\<^sup>*"
      and c: "(q, q) \<in> (followed_links posts)\<^sup>+"
      by (auto simp: meets_cycle_def)
    from e r have "(p, q) \<in> (followed_links posts)\<^sup>*"
      by (rule converse_rtrancl_into_rtrancl)
    with c show "meets_cycle posts p"
      by (auto simp: meets_cycle_def)
  }
qed

lemma returns_no_cycle:
  assumes "getAncestorsFromPostsList p posts acc = Some y"
  shows "\<not> meets_cycle posts p"
proof (rule getAncestorsFromPostsList.raw_induct[OF _ assms])
  fix f p posts acc y
  assume IH: "\<And>p posts acc y. f p posts acc = Some y \<Longrightarrow> \<not> meets_cycle posts p"
    and eq: "(case find (\<lambda>x. id_prop x = p) posts of
                None \<Rightarrow> Some acc
              | Some parent \<Rightarrow>
                  if parent_prop parent \<noteq> 0
                  then f (parent_prop parent) posts (id_prop parent # acc)
                  else Some (id_prop parent # acc)) = Some y"
  show "\<not> meets_cycle posts p"
  proof (cases "find (\<lambda>x. id_prop x = p) posts")
    case None
    then show ?thesis
      by (intro no_link_no_cycle) (simp add: followed_links_iff)
  next
    case (Some r)
    show ?thesis
    proof (cases "parent_prop r = 0")
      case True
      with Some show ?thesis
        by (intro no_link_no_cycle) (simp add: followed_links_iff)
    next
      case False
      with Some eq have "f (parent_prop r) posts (id_prop r # acc) = Some y"
        by simp
      from IH[OF this] show ?thesis
        using meets_cycle_step[OF Some False] by simp
    qed
  qed
qed

lemma no_cycle_returns:
  assumes "\<not> meets_cycle posts p"
  shows "\<exists>ids. getAncestorsFromPostsList p posts acc = Some (rev ids @ acc) \<and>
               parent_walk posts p ids"
proof -
  define R where "R = {(a, b). (b, a) \<in> followed_links posts \<and>
                               (p, b) \<in> (followed_links posts)\<^sup>*}"
  have sub: "R \<subseteq> (followed_links posts)\<inverse>"
    by (auto simp: R_def)
  have "finite R"
    using sub finite_followed_links[of posts] by (auto intro: finite_subset)
  moreover have "acyclic R"
  proof (rule acyclicI, rule allI, rule notI)
    fix x assume x: "(x, x) \<in> R\<^sup>+"
    then have "(x, x) \<in> ((followed_links posts)\<inverse>)\<^sup>+"
      using sub trancl_mono by blast
    then have c: "(x, x) \<in> (followed_links posts)\<^sup>+"
      by (simp add: trancl_converse)
    from x obtain y where "(x, y) \<in> R"
      by (auto dest: tranclD)
    then have "(y, x) \<in> followed_links posts" and "(p, y) \<in> (followed_links posts)\<^sup>*"
      by (auto simp: R_def)
    then have "(p, x) \<in> (followed_links posts)\<^sup>*"
      by auto
    with c assms show False
      by (auto simp: meets_cycle_def)
  qed
  ultimately have "wf R"
    by (rule finite_acyclic_wf)
  then have "(p, q) \<in> (followed_links posts)\<^sup>* \<longrightarrow>
               (\<forall>acc. \<exists>ids. getAncestorsFromPostsList q posts acc = Some (rev ids @ acc) \<and>
                             parent_walk posts q ids)" for q
  proof (induction q rule: wf_induct_rule)
    case (less q)
    show ?case
    proof (intro impI allI)
      fix acc
      assume reach: "(p, q) \<in> (followed_links posts)\<^sup>*"
      show "\<exists>ids. getAncestorsFromPostsList q posts acc = Some (rev ids @ acc) \<and>
                  parent_walk posts q ids"
      proof (cases "find (\<lambda>r. id_prop r = q) posts")
        case None
        then have "getAncestorsFromPostsList q posts acc = Some (rev [] @ acc)"
          by (subst getAncestorsFromPostsList.simps) simp
        moreover have "parent_walk posts q []" using None by simp
        ultimately show ?thesis by blast
      next
        case (Some r)
        note r = find_id_Some[OF Some]
        show ?thesis
        proof (cases "parent_prop r = 0")
          case True
          have "getAncestorsFromPostsList q posts acc = Some (rev [q] @ acc)"
            using Some True r by (subst getAncestorsFromPostsList.simps) simp
          moreover have "parent_walk posts q [q]" using Some True r by simp
          ultimately show ?thesis by blast
        next
          case False
          have e: "(q, parent_prop r) \<in> followed_links posts"
            using Some False by (auto simp: followed_links_iff)
          with reach have inR: "(parent_prop r, q) \<in> R"
            by (simp add: R_def)
          from reach e have "(p, parent_prop r) \<in> (followed_links posts)\<^sup>*"
            by auto
          with less[OF inR] obtain ids where
            ids: "getAncestorsFromPostsList (parent_prop r) posts (q # acc) =
                    Some (rev ids @ q # acc)"
            and w: "parent_walk posts (parent_prop r) ids"
            by blast
          have "getAncestorsFromPostsList q posts acc = Some (rev (q # ids) @ acc)"
            using Some False r ids by (subst getAncestorsFromPostsList.simps) simp
          moreover have "parent_walk posts q (q # ids)" using Some False r w by simp
          ultimately show ?thesis by blast
        qed
      qed
    qed
  qed
  then show ?thesis by blast
qed

lemma diverges_iff_meets_cycle:
  "getAncestorsFromPostsList p posts acc = None \<longleftrightarrow> meets_cycle posts p"
  using returns_no_cycle[of p posts acc] no_cycle_returns[of posts p acc]
  by (cases "getAncestorsFromPostsList p posts acc") auto

lemma acyclic_no_cycle: "acyclic_posts posts \<Longrightarrow> \<not> meets_cycle posts p"
proof -
  assume a: "acyclic_posts posts"
  have "followed_links posts \<subseteq> (parent_links posts)\<inverse>"
    by (auto simp: followed_links_def parent_links_def dest!: find_id_Some)
  moreover have "acyclic ((parent_links posts)\<inverse>)"
    using a by (simp add: acyclic_posts_def)
  ultimately have "acyclic (followed_links posts)"
    by (rule acyclic_subset[rotated])
  then show ?thesis
    by (auto simp: meets_cycle_def acyclic_def)
qed

lemma self_parent_meets_cycle: "meets_cycle self_parent_records 1"
proof -
  have "(1, 1) \<in> followed_links self_parent_records"
    by (simp add: followed_links_iff self_parent_records_def)
  then show ?thesis
    by (auto simp: meets_cycle_def)
qed

lemma shadowed_cycle_no_cycle: "\<not> meets_cycle shadowed_cycle_records 2"
  by (rule no_link_no_cycle) (simp add: followed_links_iff shadowed_cycle_records_def)

lemma shadowed_cycle_not_acyclic: "\<not> acyclic_posts shadowed_cycle_records"
proof -
  have "(parent_prop \<lparr> id_prop = 1, parent_prop = 1 \<rparr>, id_prop \<lparr> id_prop = 1, parent_prop = 1 \<rparr>)
          \<in> parent_links shadowed_cycle_records"
    unfolding parent_links_def shadowed_cycle_records_def by (rule CollectI) force
  then have "(1, 1) \<in> parent_links shadowed_cycle_records"
    by simp
  then show ?thesis
    by (auto simp: acyclic_posts_def acyclic_def)
qed

section \<open>The option list: levels and the backward walk\<close>

lemma select_Some:
  "selected_option node = Some opt \<Longrightarrow>
     getParentIdAncestorsAndLevelFromSelect node =
       Inr \<lparr> post_ancestors = getAncestorsFromOption opt,
             post_parent_id = getParentIdFromOption opt,
             post_level = getLevelFromOption opt + 1 \<rparr>"
  by (simp add: getParentIdAncestorsAndLevelFromSelect_def)

lemma getLevelFromOption_encoded:
  assumes "className opt = Some (''level-'' @ ds @ rest)"
    and "ds \<noteq> []" and "list_all is_digit ds" and "rest = [] \<or> \<not> is_digit (hd rest)"
  shows "getLevelFromOption opt = dec_value ds + 1"
  using assms(1) match_level_encoded[OF assms(2-4)]
    parseInt_match_level[OF match_level_encoded[OF assms(2-4)]]
  by (simp add: getLevelFromOption_def)

lemma getLevelFromOption_no_match:
  assumes "case className opt of None \<Rightarrow> True | Some c \<Rightarrow> match_level c = None"
  shows "getLevelFromOption opt = 0"
  using assms by (simp add: getLevelFromOption_def split: option.splits)

lemma getLevelFromOption_nonneg: "0 \<le> getLevelFromOption opt"
proof -
  have "match_level c = Some m \<Longrightarrow> 0 \<le> dec_value m" for c m
    using match_level_Some[of c m] by (simp add: dec_value_nonneg)
  then show ?thesis
    by (auto simp: getLevelFromOption_def parseInt_match_level split: option.splits)
qed

lemma valid_id_parent:
  "valid_id n \<Longrightarrow> parseInt (option_value n) = Some (getParentIdFromOption n)"
  by (auto simp: valid_id_def getParentIdFromOption_def split: option.splits)

text \<open>The loop computes the ids of the matched steps with a valid id, last met first.\<close>

lemma ancestors_loop_matched:
  "ancestors_loop level p acc =
     rev (map getParentIdFromOption (filter valid_id (matched_steps level p))) @ acc"
proof (induction level p acc rule: ancestors_loop.induct)
  case (1 level ancestors)
  then show ?case by simp
next
  case (2 level c v prev ancestors)
  then show ?case
    by (auto simp: valid_id_def getParentIdFromOption_def split: option.splits)
qed

lemma matched_steps_length: "int (length (matched_steps level p)) \<le> max 0 level"
proof (induction level p rule: matched_steps.induct)
  case (1 remaining)
  then show ?case by simp
next
  case (2 remaining c v prev)
  then show ?case by (auto split: if_splits)
qed

lemma getAncestorsFromOption_matched:
  "getAncestorsFromOption opt =
     rev (map getParentIdFromOption
            (filter valid_id (matched_steps (getLevelFromOption opt) (Some opt))))"
  by (simp add: getAncestorsFromOption_def ancestors_loop_matched)

lemma getAncestorsFromOption_length:
  "int (length (getAncestorsFromOption opt)) \<le> getLevelFromOption opt"
proof -
  have "length (getAncestorsFromOption opt) \<le>
          length (matched_steps (getLevelFromOption opt) (Some opt))"
    by (simp add: getAncestorsFromOption_matched)
  then show ?thesis
    using matched_steps_length[of "getLevelFromOption opt" "Some opt"]
      getLevelFromOption_nonneg[of opt]
    by linarith
qed

lemma getAncestorsFromOption_level_0:
  "getLevelFromOption opt = 0 \<Longrightarrow> getAncestorsFromOption opt = []"
  by (cases opt) (simp add: getAncestorsFromOption_def)

lemma level_1_class: "getLevelFromOption (Node (Some ''level-1'') v p) = 2"
  using getLevelFromOption_encoded[of "Node (Some ''level-1'') v p" "''1''" "[]"]
  by (simp add: is_digit_def dec_value_def digit_val_def)

lemma level_0_class: "getLevelFromOption (Node (Some ''level-0'') v p) = 1"
  using getLevelFromOption_encoded[of "Node (Some ''level-0'') v p" "''0''" "[]"]
  by (simp add: is_digit_def dec_value_def digit_val_def)

lemma parseInt_small:
  "parseInt (JString ''1'') = Some 1" "parseInt (JString ''2'') = Some 2"
  "parseInt (JString ''3'') = Some 3" "parseInt (JString ''7'') = Some 7"
  "parseInt (JString ''-5'') = Some (- 5)" "parseInt (JString []) = None"
  by (simp_all add: parseInt_def ToString_def parseInt_string_def is_space_def is_digit_def
      dec_value_def digit_val_def)

lemma scenario_select_state:
  "getParentIdAncestorsAndLevelFromSelect scenario_select =
     Inr \<lparr> post_ancestors = [1, 3], post_parent_id = 3, post_level = 3 \<rparr>"
  by (simp add: getParentIdAncestorsAndLevelFromSelect_def selected_option_def
      scenario_select_def scenario_option3_def scenario_option2_def scenario_option1_def
      getAncestorsFromOption_def getParentIdFromOption_def level_1_class level_0_class
      parseInt_small)

lemma top_select_state:
  "getParentIdAncestorsAndLevelFromSelect top_select =
     Inr \<lparr> post_ancestors = [7], post_parent_id = 7, post_level = 2 \<rparr>"
  by (simp add: getParentIdAncestorsAndLevelFromSelect_def selected_option_def
      top_select_def top_option_def
      getAncestorsFromOption_def getParentIdFromOption_def level_0_class parseInt_small)

lemma negative_select_state:
  "getParentIdAncestorsAndLevelFromSelect negative_select =
     Inr \<lparr> post_ancestors = [], post_parent_id = - 5, post_level = 1 \<rparr>"
  by (simp add: getParentIdAncestorsAndLevelFromSelect_def selected_option_def
      negative_select_def negative_option_def getLevelFromOption_def
      getAncestorsFromOption_def getParentIdFromOption_def parseInt_small)

section \<open>Claims on the Flat-List Adapter\<close>

text \<open>
  C2 (as amended). For every selected option whose class is \<open>level-d\<close> (the digits \<open>ds\<close>
  of \<open>d\<close>, followed by nothing or by a character that is not a digit) with
  \<open>d + 2 \<le> 2^53\<close>, the range where the two additions are exact, the adapter returns
  \<open>post_level = d + 2\<close>; for a selected option whose class is absent, empty or not of that
  form, it returns \<open>post_level = 1\<close>.
\<close>

theorem C2_level_from_class:
  assumes "selected_option node = Some opt"
  shows "\<exists>st. getParentIdAncestorsAndLevelFromSelect node = Inr st \<and>
              (className opt = Some (''level-'' @ ds @ rest) \<and> ds \<noteq> [] \<and>
               list_all is_digit ds \<and> (rest = [] \<or> \<not> is_digit (hd rest)) \<and>
               dec_value ds + 2 \<le> 9007199254740992
                 \<longrightarrow> post_level st = dec_value ds + 2) \<and>
              ((case className opt of None \<Rightarrow> True | Some c \<Rightarrow> match_level c = None)
                 \<longrightarrow> post_level st = 1)"
  using select_Some[OF assms] getLevelFromOption_encoded[of opt ds rest]
    getLevelFromOption_no_match[of opt]
  by simp

theorem C2_level_from_class_witness:
  "(selected_option scenario_select = Some scenario_option3 \<and>
    (className scenario_option3 = Some (''level-'' @ ''1'' @ []) \<and> ''1'' \<noteq> [] \<and>
     list_all is_digit ''1'' \<and> ([] = [] \<or> \<not> is_digit (hd [])) \<and>
     dec_value ''1'' + 2 \<le> 9007199254740992) \<and>
    (\<exists>st. getParentIdAncestorsAndLevelFromSelect scenario_select = Inr st \<and>
          post_level st = dec_value ''1'' + 2)) \<and>
   (selected_option no_parent_select = Some no_parent_option \<and>
    (case className no_parent_option of None \<Rightarrow> True | Some c \<Rightarrow> match_level c = None) \<and>
    (\<exists>st. getParentIdAncestorsAndLevelFromSelect no_parent_select = Inr st \<and>
          post_level st = 1))"
proof -
  have s1: "selected_option scenario_select = Some scenario_option3"
    by (simp add: selected_option_def scenario_select_def)
  have a1: "className scenario_option3 = Some (''level-'' @ ''1'' @ []) \<and> ''1'' \<noteq> [] \<and>
     list_all is_digit ''1'' \<and> ([] = [] \<or> \<not> is_digit (hd [])) \<and>
     dec_value ''1'' + 2 \<le> 9007199254740992"
    by (simp add: scenario_option3_def is_digit_def dec_value_def digit_val_def)
  have s2: "selected_option no_parent_select = Some no_parent_option"
    by (simp add: selected_option_def no_parent_select_def)
  have a2: "case className no_parent_option of None \<Rightarrow> True | Some c \<Rightarrow> match_level c = None"
    by (simp add: no_parent_option_def match_level_def)
  from C2_level_from_class[of scenario_select scenario_option3 "''1''" "[]", OF s1] a1
  have c1: "\<exists>st. getParentIdAncestorsAndLevelFromSelect scenario_select = Inr st \<and>
          post_level st = dec_value ''1'' + 2"
    by blast
  from C2_level_from_class[of no_parent_select no_parent_option "[]" "[]", OF s2] a2
  have c2: "\<exists>st. getParentIdAncestorsAndLevelFromSelect no_parent_select = Inr st \<and>
          post_level st = 1"
    by blast
  from s1 a1 c1 s2 a2 c2 show ?thesis by blast
qed

text \<open>
  A selected option of class \<open>level-0\<close> (depth \<open>0\<close>) gives \<open>post_level = 2\<close>, not \<open>0 + 1\<close>.
\<close>

theorem C2_counterexample:
  "getParentIdAncestorsAndLevelFromSelect top_select =
     Inr \<lparr> post_ancestors = [7], post_parent_id = 7, post_level = 2 \<rparr> \<and>
   getParentIdAncestorsAndLevelFromSelect top_select \<noteq>
     Inr \<lparr> post_ancestors = [7], post_parent_id = 7, post_level = 0 + 1 \<rparr>"
  by (simp add: top_select_state)

text \<open>
  C3 (as amended). With the options \<open>1\<close> (class \<open>level-0\<close>), \<open>2\<close> and \<open>3\<close> (class
  \<open>level-1\<close>) in this order and option \<open>3\<close> selected, the derived state is
  \<open>{post_ancestors: [1, 3], post_parent_id: 3, post_level: 3}\<close>: the selected option is
  the first step of the walk, and the level is the one of the edited post below it.
\<close>

theorem C3_scenario_state:
  "getParentIdAncestorsAndLevelFromSelect scenario_select =
     Inr \<lparr> post_ancestors = [1, 3], post_parent_id = 3, post_level = 3 \<rparr>"
  by (rule scenario_select_state)

theorem C3_counterexample:
  "getParentIdAncestorsAndLevelFromSelect scenario_select \<noteq>
     Inr \<lparr> post_ancestors = [1], post_parent_id = 3, post_level = 2 \<rparr>"
  by (simp add: scenario_select_state)

text \<open>
  C4 (as amended). For every selected option and every chain of previous siblings, the
  ancestors the adapter returns are the ids of the steps matched while walking backward
  that have a valid id, in reverse order of the walk, so their number is the number of
  those steps. That number is at most \<open>d + 1\<close> when the class of the selected option is
  \<open>level-d\<close> (the selected option is itself the first step), and \<open>0\<close> when the class is
  absent or not of that form.
\<close>

theorem C4_ancestors_are_matched_steps:
  assumes "selected_option node = Some opt"
  shows "\<exists>st. getParentIdAncestorsAndLevelFromSelect node = Inr st \<and>
              post_ancestors st =
                rev (map getParentIdFromOption
                       (filter valid_id (matched_steps (getLevelFromOption opt) (Some opt)))) \<and>
              length (post_ancestors st) =
                length (filter valid_id (matched_steps (getLevelFromOption opt) (Some opt))) \<and>
              (className opt = Some (''level-'' @ ds @ rest) \<and> ds \<noteq> [] \<and>
               list_all is_digit ds \<and> (rest = [] \<or> \<not> is_digit (hd rest))
                 \<longrightarrow> int (length (post_ancestors st)) \<le> dec_value ds + 1) \<and>
              ((case className opt of None \<Rightarrow> True | Some c \<Rightarrow> match_level c = None)
                 \<longrightarrow> post_ancestors st = [])"
proof -
  let ?st = "\<lparr> post_ancestors = getAncestorsFromOption opt,
               post_parent_id = getParentIdFromOption opt,
               post_level = getLevelFromOption opt + 1 \<rparr>"
  have 1: "getParentIdAncestorsAndLevelFromSelect node = Inr ?st"
    by (rule select_Some[OF assms])
  have 2: "post_ancestors ?st =
             rev (map getParentIdFromOption
                    (filter valid_id (matched_steps (getLevelFromOption opt) (Some opt))))"
    by (simp add: getAncestorsFromOption_matched)
  have 3: "length (post_ancestors ?st) =
             length (filter valid_id (matched_steps (getLevelFromOption opt) (Some opt)))"
    by (simp add: getAncestorsFromOption_matched)
  have 4: "className opt = Some (''level-'' @ ds @ rest) \<and> ds \<noteq> [] \<and>
           list_all is_digit ds \<and> (rest = [] \<or> \<not> is_digit (hd rest))
             \<longrightarrow> int (length (post_ancestors ?st)) \<le> dec_value ds + 1"
    using getLevelFromOption_encoded[of opt ds rest] getAncestorsFromOption_length[of opt]
    by auto
  have 5: "(case className opt of None \<Rightarrow> True | Some c \<Rightarrow> match_level c = None)
             \<longrightarrow> post_ancestors ?st = []"
    using getLevelFromOption_no_match[of opt] getAncestorsFromOption_level_0[of opt]
    by auto
  from 1 2 3 4 5 show ?thesis by blast
qed

theorem C4_ancestors_are_matched_steps_witness:
  "(selected_option scenario_select = Some scenario_option3 \<and>
    (className scenario_option3 = Some (''level-'' @ ''1'' @ []) \<and> ''1'' \<noteq> [] \<and>
     list_all is_digit ''1'' \<and> ([] = [] \<or> \<not> is_digit (hd []))) \<and>
    (\<exists>st. getParentIdAncestorsAndLevelFromSelect scenario_select = Inr st \<and>
          length (post_ancestors st) =
            length (filter valid_id
                      (matched_steps (getLevelFromOption scenario_option3)
                         (Some scenario_option3))) \<and>
          int (length (post_ancestors st)) \<le> dec_value ''1'' + 1)) \<and>
   (selected_option no_parent_select = Some no_parent_option \<and>
    (case className no_parent_option of None \<Rightarrow> True | Some c \<Rightarrow> match_level c = None) \<and>
    (\<exists>st. getParentIdAncestorsAndLevelFromSelect no_parent_select = Inr st \<and>
          post_ancestors st = []))"
proof -
  have s1: "selected_option scenario_select = Some scenario_option3"
    by (simp add: selected_option_def scenario_select_def)
  have a1: "className scenario_option3 = Some (''level-'' @ ''1'' @ []) \<and> ''1'' \<noteq> [] \<and>
     list_all is_digit ''1'' \<and> ([] = [] \<or> \<not> is_digit (hd []))"
    by (simp add: scenario_option3_def is_digit_def)
  have s2: "selected_option no_parent_select = Some no_parent_option"
    by (simp add: selected_option_def no_parent_select_def)
  have a2: "case className no_parent_option of None \<Rightarrow> True | Some c \<Rightarrow> match_level c = None"
    by (simp add: no_parent_option_def match_level_def)
  from C4_ancestors_are_matched_steps[of scenario_select scenario_option3 "''1''" "[]", OF s1] a1
  have c1: "\<exists>st. getParentIdAncestorsAndLevelFromSelect scenario_select = Inr st \<and>
          length (post_ancestors st) =
            length (filter valid_id
                      (matched_steps (getLevelFromOption scenario_option3)
                         (Some scenario_option3))) \<and>
          int (length (post_ancestors st)) \<le> dec_value ''1'' + 1"
    by blast
  from C4_ancestors_are_matched_steps[of no_parent_select no_parent_option "[]" "[]", OF s2] a2
  have c2: "\<exists>st. getParentIdAncestorsAndLevelFromSelect no_parent_select = Inr st \<and>
          post_ancestors st = []"
    by blast
  from s1 a1 c1 s2 a2 c2 show ?thesis by blast
qed

text \<open>
  A selected option of class \<open>level-0\<close> and id \<open>7\<close> has depth \<open>0\<close> and one ancestor, its own
  id: the length of the ancestors is not bounded by the depth.
\<close>

theorem C4_counterexample:
  "className top_option = Some ''level-0'' \<and>
   getAncestorsFromOption top_option = [7] \<and>
   \<not> int (length (getAncestorsFromOption top_option)) \<le> 0"
  by (simp add: top_option_def getAncestorsFromOption_def level_0_class parseInt_small)

text \<open>
  C7 (as amended). Whenever the select has a selected option, deriving the state raises
  no exception, on the change event and on the first value alike: an id value that does
  not parse gives \<open>post_parent_id = 0\<close>, and a class that is absent, empty or malformed
  gives \<open>post_level = 1\<close> with no ancestors. A missing select node gives the default
  state.
\<close>

theorem C7_no_exception_with_selected_option:
  assumes "selected_option node = Some opt"
  shows "classic_startWith None = Inr INITIAL_STATE \<and>
         (\<exists>st. getParentIdAncestorsAndLevelFromSelect node = Inr st \<and>
               classic_startWith (Some node) = Inr st \<and>
               (parseInt (option_value opt) = None \<longrightarrow> post_parent_id st = 0) \<and>
               ((case className opt of None \<Rightarrow> True | Some c \<Rightarrow> match_level c = None)
                  \<longrightarrow> post_level st = 1 \<and> post_ancestors st = []))"
  using select_Some[OF assms] getLevelFromOption_no_match[of opt]
    getAncestorsFromOption_level_0[of opt]
  by (auto simp: classic_startWith_def getParentIdFromOption_def)

theorem C7_no_exception_with_selected_option_witness:
  "selected_option no_parent_select = Some no_parent_option \<and>
   parseInt (option_value no_parent_option) = None \<and>
   (case className no_parent_option of None \<Rightarrow> True | Some c \<Rightarrow> match_level c = None) \<and>
   (\<exists>st. getParentIdAncestorsAndLevelFromSelect no_parent_select = Inr st \<and>
         classic_startWith (Some no_parent_select) = Inr st \<and>
         post_parent_id st = 0 \<and> post_level st = 1 \<and> post_ancestors st = [])"
proof -
  have s: "selected_option no_parent_select = Some no_parent_option"
    by (simp add: selected_option_def no_parent_select_def)
  have p: "parseInt (option_value no_parent_option) = None"
    by (simp add: no_parent_option_def parseInt_small)
  have a: "case className no_parent_option of None \<Rightarrow> True | Some c \<Rightarrow> match_level c = None"
    by (simp add: no_parent_option_def match_level_def)
  from C7_no_exception_with_selected_option[of no_parent_select no_parent_option, OF s] p a
  have c: "\<exists>st. getParentIdAncestorsAndLevelFromSelect no_parent_select = Inr st \<and>
         classic_startWith (Some no_parent_select) = Inr st \<and>
         post_parent_id st = 0 \<and> post_level st = 1 \<and> post_ancestors st = []"
    by blast
  from s p a c show ?thesis by blast
qed

text \<open>
  With no selected option (\<open>selectedIndex = -1\<close>) the adapter throws a \<open>TypeError\<close>, on
  the first value of the classic filter as well.
\<close>

theorem C7_counterexample:
  "getParentIdAncestorsAndLevelFromSelect empty_select = Inl TypeError \<and>
   classic_startWith (Some empty_select) = Inl TypeError"
  by (simp add: classic_startWith_def getParentIdAncestorsAndLevelFromSelect_def
      selected_option_def empty_select_def)

text \<open>
  C9 (as amended). For every selected option, the returned parent id is the option's
  value parsed as an integer whenever the parse yields a number of magnitude at most
  \<open>2^53\<close>, be it positive, zero or negative (a run of digits \<open>ds\<close> gives its decimal
  value, \<open>-\<close> before it the negated value), and \<open>0\<close> when the parse yields \<open>NaN\<close>.
\<close>

theorem C9_parent_id_is_parsed_value:
  assumes "selected_option node = Some opt"
  shows "\<exists>st. getParentIdAncestorsAndLevelFromSelect node = Inr st \<and>
              (parseInt (option_value opt) = Some v \<and> \<bar>v\<bar> \<le> 9007199254740992
                 \<longrightarrow> post_parent_id st = v) \<and>
              (parseInt (option_value opt) = None \<longrightarrow> post_parent_id st = 0) \<and>
              (ds \<noteq> [] \<and> list_all is_digit ds \<and> dec_value ds \<le> 9007199254740992 \<and>
               option_value opt = JString ds
                 \<longrightarrow> post_parent_id st = dec_value ds) \<and>
              (ds \<noteq> [] \<and> list_all is_digit ds \<and> dec_value ds \<le> 9007199254740992 \<and>
               option_value opt = JString (CHR ''-'' # ds)
                 \<longrightarrow> post_parent_id st = - dec_value ds)"
  using select_Some[OF assms] parseInt_string_digits[of ds "[]"]
    parseInt_string_minus_digits[of ds]
  by (auto simp: getParentIdFromOption_def parseInt_def ToString_def)

theorem C9_parent_id_is_parsed_value_witness:
  "(selected_option negative_select = Some negative_option \<and>
    (parseInt (option_value negative_option) = Some (- 5) \<and>
     \<bar>- 5 :: int\<bar> \<le> 9007199254740992) \<and>
    (''5'' \<noteq> [] \<and> list_all is_digit ''5'' \<and> dec_value ''5'' \<le> 9007199254740992 \<and>
     option_value negative_option = JString (CHR ''-'' # ''5'')) \<and>
    (\<exists>st. getParentIdAncestorsAndLevelFromSelect negative_select = Inr st \<and>
          post_parent_id st = - 5 \<and> post_parent_id st = - dec_value ''5'')) \<and>
   (selected_option top_select = Some top_option \<and>
    (''7'' \<noteq> [] \<and> list_all is_digit ''7'' \<and> dec_value ''7'' \<le> 9007199254740992 \<and>
     option_value top_option = JString ''7'') \<and>
    (\<exists>st. getParentIdAncestorsAndLevelFromSelect top_select = Inr st \<and>
          post_parent_id st = dec_value ''7'')) \<and>
   (selected_option no_parent_select = Some no_parent_option \<and>
    parseInt (option_value no_parent_option) = None \<and>
    (\<exists>st. getParentIdAncestorsAndLevelFromSelect no_parent_select = Inr st \<and>
          post_parent_id st = 0))"
proof -
  have s1: "selected_option negative_select = Some negative_option"
    by (simp add: selected_option_def negative_select_def)
  have p1: "parseInt (option_value negative_option) = Some (- 5) \<and>
     \<bar>- 5 :: int\<bar> \<le> 9007199254740992"
    by (simp add: negative_option_def parseInt_small)
  have a1: "''5'' \<noteq> [] \<and> list_all is_digit ''5'' \<and> dec_value ''5'' \<le> 9007199254740992 \<and>
     option_value negative_option = JString (CHR ''-'' # ''5'')"
    by (simp add: negative_option_def is_digit_def dec_value_def digit_val_def)
  from C9_parent_id_is_parsed_value[of negative_select negative_option "- 5" "''5''", OF s1] p1 a1
  have c1: "\<exists>st. getParentIdAncestorsAndLevelFromSelect negative_select = Inr st \<and>
          post_parent_id st = - 5 \<and> post_parent_id st = - dec_value ''5''"
    by blast
  have s2: "selected_option top_select = Some top_option"
    by (simp add: selected_option_def top_select_def)
  have a2: "''7'' \<noteq> [] \<and> list_all is_digit ''7'' \<and> dec_value ''7'' \<le> 9007199254740992 \<and>
     option_value top_option = JString ''7''"
    by (simp add: top_option_def is_digit_def dec_value_def digit_val_def)
  from C9_parent_id_is_parsed_value[of top_select top_option 7 "''7''", OF s2] a2
  have c2: "\<exists>st. getParentIdAncestorsAndLevelFromSelect top_select = Inr st \<and>
          post_parent_id st = dec_value ''7''"
    by blast
  have s3: "selected_option no_parent_select = Some no_parent_option"
    by (simp add: selected_option_def no_parent_select_def)
  have p3: "parseInt (option_value no_parent_option) = None"
    by (simp add: no_parent_option_def parseInt_small)
  from C9_parent_id_is_parsed_value[of no_parent_select no_parent_option 0 "[]", OF s3] p3
  have c3: "\<exists>st. getParentIdAncestorsAndLevelFromSelect no_parent_select = Inr st \<and>
          post_parent_id st = 0"
    by blast
  from s1 p1 a1 c1 s2 a2 c2 s3 p3 c3 show ?thesis by blast
qed

text \<open>
  The value \<open>-5\<close> parses to a number that is not positive, and the parent id returned is
  \<open>-5\<close>, not \<open>0\<close>.
\<close>

theorem C9_counterexample:
  "getParentIdAncestorsAndLevelFromSelect negative_select =
     Inr \<lparr> post_ancestors = [], post_parent_id = - 5, post_level = 1 \<rparr> \<and>
   getParentIdAncestorsAndLevelFromSelect negative_select \<noteq>
     Inr \<lparr> post_ancestors = [], post_parent_id = 0, post_level = 1 \<rparr>"
  by (simp add: negative_select_state)

section \<open>Claims on the Record-List Adapter\<close>

text \<open>
  C1 (as amended). On the records \<open>[{id:5,parent:0},{id:9,parent:5},{id:20,parent:9}]\<close>
  with parent id \<open>20\<close> and a hierarchical type, the emitted state is
  \<open>{post_ancestors: [5, 9, 20], post_parent_id: 20, post_level: 4}\<close>: the chain holds the
  parent itself as its last element, and the level counts it.
\<close>

theorem C1_scenario_state:
  assumes "getPostType slug = Some t" and "hierarchical t"
    and "getEntityRecords ''postType'' slug
           \<lparr> per_page = - 1, exclude = postId, parent_exclude = postId,
             orderby = ''menu_order'', order = ''asc'' \<rparr> = Some scenario_records"
  shows "gutenberg_map getPostType getEntityRecords (postId, slug, JNumber 20) =
           Some \<lparr> post_ancestors = [5, 9, 20], post_parent_id = 20, post_level = 4 \<rparr>"
proof -
  have "getAncestorsFromPostsList 20 scenario_records [] = Some [5, 9, 20]"
    by (simp add: getAncestorsFromPostsList.simps scenario_records_def)
  then show ?thesis
    using gutenberg_map_gate_passed[of "JNumber 20" 20 getPostType slug t getEntityRecords
        postId scenario_records] assms parseInt_JNumber[of 20]
    by simp
qed

theorem C1_scenario_state_witness:
  "hierarchical_type ''page'' = Some \<lparr> hierarchical = True \<rparr> \<and>
   hierarchical \<lparr> hierarchical = True \<rparr> \<and>
   records_store scenario_records ''postType'' ''page''
     \<lparr> per_page = - 1, exclude = 33, parent_exclude = 33,
       orderby = ''menu_order'', order = ''asc'' \<rparr> = Some scenario_records \<and>
   gutenberg_map hierarchical_type (records_store scenario_records) (33, ''page'', JNumber 20) =
     Some \<lparr> post_ancestors = [5, 9, 20], post_parent_id = 20, post_level = 4 \<rparr>"
proof -
  have t: "hierarchical_type ''page'' = Some \<lparr> hierarchical = True \<rparr>"
    by (simp add: hierarchical_type_def)
  have h: "hierarchical \<lparr> hierarchical = True \<rparr>"
    by simp
  have r: "records_store scenario_records ''postType'' ''page''
     \<lparr> per_page = - 1, exclude = 33, parent_exclude = 33,
       orderby = ''menu_order'', order = ''asc'' \<rparr> = Some scenario_records"
    by (simp add: records_store_def)
  have c: "gutenberg_map hierarchical_type (records_store scenario_records)
             (33, ''page'', JNumber 20) =
           Some \<lparr> post_ancestors = [5, 9, 20], post_parent_id = 20, post_level = 4 \<rparr>"
    by (rule C1_scenario_state[of hierarchical_type "''page''" "\<lparr> hierarchical = True \<rparr>"
          "records_store scenario_records" 33, OF t h r])
  from t h r c show ?thesis by blast
qed

text \<open>
  The state the claim names, \<open>{ancestors: [5, 9], parentId: 20, level: 3}\<close>, is not what
  the callback emits on the scenario.
\<close>

theorem C1_counterexample:
  "gutenberg_map hierarchical_type (records_store scenario_records) (33, ''page'', JNumber 20) \<noteq>
     Some \<lparr> post_ancestors = [5, 9], post_parent_id = 20, post_level = 3 \<rparr>"
proof -
  have "getAncestorsFromPostsList 20 scenario_records [] = Some [5, 9, 20]"
    by (simp add: getAncestorsFromPostsList.simps scenario_records_def)
  then show ?thesis
    by (simp add: gutenberg_map_def parseInt_JNumber hierarchical_type_def records_store_def)
qed

text \<open>
  C5. Once the validity gate has passed (the parent attribute parses to a number and the
  type is hierarchical), the callback emits a state for every parent id and record list
  on which the walk up the parent links meets no cycle, a missing record list counting
  as the empty one, and every state it emits has
  \<open>post_level = post_ancestors.length + 1\<close> and the parsed parent id. On a walk that
  meets a cycle it emits nothing.
\<close>

theorem C5_level_is_length_plus_one:
  assumes "parseInt parentAttr = Some parentId"
    and "getPostType slug = Some t" and "hierarchical t"
    and "items = (case getEntityRecords ''postType'' slug
                         \<lparr> per_page = - 1, exclude = postId, parent_exclude = postId,
                           orderby = ''menu_order'', order = ''asc'' \<rparr> of
                    None \<Rightarrow> [] | Some recs \<Rightarrow> recs)"
  shows "(\<not> meets_cycle items parentId \<longrightarrow>
            (\<exists>st. gutenberg_map getPostType getEntityRecords (postId, slug, parentAttr) = Some st \<and>
                  post_level st = int (length (post_ancestors st)) + 1 \<and>
                  post_parent_id st = parentId)) \<and>
         (meets_cycle items parentId \<longrightarrow>
            gutenberg_map getPostType getEntityRecords (postId, slug, parentAttr) = None) \<and>
         (gutenberg_map getPostType getEntityRecords (postId, slug, parentAttr) = Some st' \<longrightarrow>
            post_level st' = int (length (post_ancestors st')) + 1 \<and> post_parent_id st' = parentId)"
proof -
  have g: "gutenberg_map getPostType getEntityRecords (postId, slug, parentAttr) =
             map_option (\<lambda>ancestors. \<lparr> post_ancestors = ancestors, post_parent_id = parentId,
                                          post_level = int (length ancestors) + 1 \<rparr>)
               (getAncestorsFromPostsList parentId items [])"
    using assms by (simp add: gutenberg_map_def split: option.splits)
  have 1: "\<not> meets_cycle items parentId \<longrightarrow>
            (\<exists>st. gutenberg_map getPostType getEntityRecords (postId, slug, parentAttr) = Some st \<and>
                  post_level st = int (length (post_ancestors st)) + 1 \<and>
                  post_parent_id st = parentId)"
    using no_cycle_returns[of items parentId "[]"] by (auto simp: g)
  have 2: "meets_cycle items parentId \<longrightarrow>
            gutenberg_map getPostType getEntityRecords (postId, slug, parentAttr) = None"
    using diverges_iff_meets_cycle[of parentId items "[]"] by (simp add: g)
  have 3: "gutenberg_map getPostType getEntityRecords (postId, slug, parentAttr) = Some st' \<longrightarrow>
            post_level st' = int (length (post_ancestors st')) + 1 \<and> post_parent_id st' = parentId"
    by (auto simp: g)
  from 1 2 3 show ?thesis by blast
qed

theorem C5_level_is_length_plus_one_witness:
  "(parseInt (JNumber 9) = Some 9 \<and>
    hierarchical_type ''page'' = Some \<lparr> hierarchical = True \<rparr> \<and>
    hierarchical \<lparr> hierarchical = True \<rparr> \<and>
    \<not> meets_cycle scenario_records 9 \<and>
    (\<exists>st. gutenberg_map hierarchical_type (records_store scenario_records)
             (33, ''page'', JNumber 9) = Some st \<and>
          post_level st = int (length (post_ancestors st)) + 1 \<and> post_parent_id st = 9)) \<and>
   (parseInt (JNumber 1) = Some 1 \<and>
    meets_cycle self_parent_records 1 \<and>
    gutenberg_map hierarchical_type (records_store self_parent_records)
      (33, ''page'', JNumber 1) = None)"
proof -
  have p9: "parseInt (JNumber 9) = Some 9"
    by (rule parseInt_JNumber) simp
  have p1: "parseInt (JNumber 1) = Some 1"
    by (rule parseInt_JNumber) simp
  have t: "hierarchical_type ''page'' = Some \<lparr> hierarchical = True \<rparr>"
    by (simp add: hierarchical_type_def)
  have h: "hierarchical \<lparr> hierarchical = True \<rparr>"
    by simp
  have i9: "scenario_records =
              (case records_store scenario_records ''postType'' ''page''
                      \<lparr> per_page = - 1, exclude = 33, parent_exclude = 33,
                        orderby = ''menu_order'', order = ''asc'' \<rparr> of
                 None \<Rightarrow> [] | Some recs \<Rightarrow> recs)"
    by (simp add: records_store_def)
  have i1: "self_parent_records =
              (case records_store self_parent_records ''postType'' ''page''
                      \<lparr> per_page = - 1, exclude = 33, parent_exclude = 33,
                        orderby = ''menu_order'', order = ''asc'' \<rparr> of
                 None \<Rightarrow> [] | Some recs \<Rightarrow> recs)"
    by (simp add: records_store_def)
  have n9: "\<not> meets_cycle scenario_records 9"
    by (rule acyclic_no_cycle[OF acyclic_scenario_records])
  have m1: "meets_cycle self_parent_records 1"
    by (rule self_parent_meets_cycle)
  from C5_level_is_length_plus_one[of "JNumber 9" 9 hierarchical_type "''page''"
      "\<lparr> hierarchical = True \<rparr>" scenario_records "records_store scenario_records" 33,
      OF p9 t h i9] n9
  have c9: "\<exists>st. gutenberg_map hierarchical_type (records_store scenario_records)
             (33, ''page'', JNumber 9) = Some st \<and>
          post_level st = int (length (post_ancestors st)) + 1 \<and> post_parent_id st = 9"
    by blast
  from C5_level_is_length_plus_one[of "JNumber 1" 1 hierarchical_type "''page''"
      "\<lparr> hierarchical = True \<rparr>" self_parent_records "records_store self_parent_records" 33,
      OF p1 t h i1] m1
  have c1: "gutenberg_map hierarchical_type (records_store self_parent_records)
      (33, ''page'', JNumber 1) = None"
    by blast
  from p9 t h n9 c9 p1 m1 c1 show ?thesis by blast
qed

text \<open>
  C6 (as amended). For every parent id, record list and accumulator,
  \<open>getAncestorsFromPostsList\<close> returns unless the walk up the parent links from the
  parent id meets a cycle, that is, reaches an id from which the followed links lead back
  to it. When it returns, what it has put in front of the accumulator is the walk up
  from the parent id, root first, and that walk ends exactly where an id has no matching
  record or the resolved record has no parent. When the walk meets a cycle the call
  never returns.
\<close>

theorem C6_returns_unless_cycle:
  "(\<not> meets_cycle posts p \<longrightarrow>
      (\<exists>ids. getAncestorsFromPostsList p posts acc = Some (rev ids @ acc) \<and>
             parent_walk posts p ids)) \<and>
   (meets_cycle posts p \<longrightarrow> getAncestorsFromPostsList p posts acc = None)"
  using no_cycle_returns[of posts p acc] diverges_iff_meets_cycle[of p posts acc]
  by blast

text \<open>
  The walk returns on the acyclic scenario and on a list that holds a cycle the walk
  from \<open>2\<close> never reaches; it does not return on the record that is its own parent.
\<close>

theorem C6_returns_unless_cycle_witness:
  "(\<not> meets_cycle scenario_records 20 \<and>
    (\<exists>ids. getAncestorsFromPostsList 20 scenario_records [] = Some (rev ids @ []) \<and>
           parent_walk scenario_records 20 ids)) \<and>
   (\<not> acyclic_posts shadowed_cycle_records \<and>
    \<not> meets_cycle shadowed_cycle_records 2 \<and>
    (\<exists>ids. getAncestorsFromPostsList 2 shadowed_cycle_records [] = Some (rev ids @ []) \<and>
           parent_walk shadowed_cycle_records 2 ids)) \<and>
   (meets_cycle self_parent_records 1 \<and>
    getAncestorsFromPostsList 1 self_parent_records [] = None)"
proof -
  have n1: "\<not> meets_cycle scenario_records 20"
    by (rule acyclic_no_cycle[OF acyclic_scenario_records])
  from C6_returns_unless_cycle[of scenario_records 20 "[]"] n1
  have c1: "\<exists>ids. getAncestorsFromPostsList 20 scenario_records [] = Some (rev ids @ []) \<and>
           parent_walk scenario_records 20 ids"
    by blast
  have n2: "\<not> meets_cycle shadowed_cycle_records 2"
    by (rule shadowed_cycle_no_cycle)
  from C6_returns_unless_cycle[of shadowed_cycle_records 2 "[]"] n2
  have c2: "\<exists>ids. getAncestorsFromPostsList 2 shadowed_cycle_records [] = Some (rev ids @ []) \<and>
           parent_walk shadowed_cycle_records 2 ids"
    by blast
  have m3: "meets_cycle self_parent_records 1"
    by (rule self_parent_meets_cycle)
  from C6_returns_unless_cycle[of self_parent_records 1 "[]"] m3
  have c3: "getAncestorsFromPostsList 1 self_parent_records [] = None"
    by blast
  from n1 c1 shadowed_cycle_not_acyclic n2 c2 m3 c3 show ?thesis by blast
qed

text \<open>
  On a finite list with a cycle the recursion has no end: with the one record
  \<open>{id: 1, parent: 1}\<close> and parent id \<open>1\<close> the call never returns.
\<close>

theorem C6_counterexample:
  "getAncestorsFromPostsList 1 self_parent_records [] = None"
  by (rule self_parent_diverges)

text \<open>
  C8. When the parent attribute does not parse to a number, or the post type is unknown
  or not hierarchical, the callback emits exactly the default state
  \<open>{post_ancestors: [], post_parent_id: 0, post_level: 1}\<close>, whatever the post id and
  whatever the record selector would give: the records are not fetched and
  \<open>getAncestorsFromPostsList\<close> is not called.
\<close>

theorem C8_gate_gives_default:
  assumes "parseInt parentAttr = None \<or>
           (case getPostType slug of None \<Rightarrow> True | Some t \<Rightarrow> \<not> hierarchical t)"
  shows "gutenberg_map getPostType getEntityRecords (postId, slug, parentAttr) =
           Some INITIAL_STATE \<and>
         INITIAL_STATE = \<lparr> post_ancestors = [], post_parent_id = 0, post_level = 1 \<rparr>"
  using assms by (auto simp: gutenberg_map_def INITIAL_STATE_def split: option.splits)

text \<open>
  The two ways through the gate, on records where a call of the adapter would never
  return.
\<close>

theorem C8_gate_gives_default_witness:
  "(parseInt JUndefined = None \<and>
    gutenberg_map hierarchical_type (records_store self_parent_records)
      (33, ''page'', JUndefined) = Some INITIAL_STATE \<and>
    INITIAL_STATE = \<lparr> post_ancestors = [], post_parent_id = 0, post_level = 1 \<rparr>) \<and>
   ((case flat_type ''post'' of None \<Rightarrow> True | Some t \<Rightarrow> \<not> hierarchical t) \<and>
    getAncestorsFromPostsList 1 self_parent_records [] = None \<and>
    gutenberg_map flat_type (records_store self_parent_records)
      (33, ''post'', JNumber 1) = Some INITIAL_STATE \<and>
    INITIAL_STATE = \<lparr> post_ancestors = [], post_parent_id = 0, post_level = 1 \<rparr>)"
proof -
  have f: "case flat_type ''post'' of None \<Rightarrow> True | Some t \<Rightarrow> \<not> hierarchical t"
    by (simp add: flat_type_def)
  have d: "getAncestorsFromPostsList 1 self_parent_records [] = None"
    by (rule self_parent_diverges)
  have c1: "gutenberg_map hierarchical_type (records_store self_parent_records)
              (33, ''page'', JUndefined) = Some INITIAL_STATE \<and>
            INITIAL_STATE = \<lparr> post_ancestors = [], post_parent_id = 0, post_level = 1 \<rparr>"
    by (rule C8_gate_gives_default[of JUndefined hierarchical_type "''page''"
          "records_store self_parent_records" 33, OF disjI1[OF parseInt_JUndefined]])
  have c2: "gutenberg_map flat_type (records_store self_parent_records)
              (33, ''post'', JNumber 1) = Some INITIAL_STATE \<and>
            INITIAL_STATE = \<lparr> post_ancestors = [], post_parent_id = 0, post_level = 1 \<rparr>"
    by (rule C8_gate_gives_default[of "JNumber 1" flat_type "''post''"
          "records_store self_parent_records" 33, OF disjI2[OF f]])
  from parseInt_JUndefined f d c1 c2 show ?thesis by blast
qed

text \<open>
  C10. When the gate has passed, the record list is acyclic and holds a record whose id
  is the parent id, the callback emits a state whose \<open>post_ancestors\<close> is not empty and
  ends with \<open>post_parent_id\<close>: the immediate parent is part of the chain.
\<close>

theorem C10_ancestors_end_with_parent:
  assumes "acyclic_posts posts" and "\<exists>r \<in> set posts. id_prop r = p"
    and "parseInt parentAttr = Some p"
    and "getPostType slug = Some t" and "hierarchical t"
    and "getEntityRecords ''postType'' slug
           \<lparr> per_page = - 1, exclude = postId, parent_exclude = postId,
             orderby = ''menu_order'', order = ''asc'' \<rparr> = Some posts"
  shows "\<exists>st. gutenberg_map getPostType getEntityRecords (postId, slug, parentAttr) = Some st \<and>
              getAncestorsFromPostsList p posts [] = Some (post_ancestors st) \<and>
              post_ancestors st \<noteq> [] \<and>
              last (post_ancestors st) = p \<and>
              post_parent_id st = p"
proof -
  from getAncestorsFromPostsList_walk[OF assms(1), of p "[]"] obtain ids where
    ids: "getAncestorsFromPostsList p posts [] = Some (rev ids)" and w: "parent_walk posts p ids"
    by auto
  have "find (\<lambda>r. id_prop r = p) posts \<noteq> None"
    using assms(2) by (simp add: find_id_None)
  from parent_walk_hd[OF w this] have "rev ids \<noteq> []" and "last (rev ids) = p"
    by (simp_all add: last_rev)
  then show ?thesis
    using gutenberg_map_gate_passed[of parentAttr p getPostType slug t getEntityRecords
        postId posts] assms(3-6) ids
    by simp
qed

theorem C10_ancestors_end_with_parent_witness:
  "acyclic_posts scenario_records \<and>
   (\<exists>r \<in> set scenario_records. id_prop r = 9) \<and>
   parseInt (JNumber 9) = Some 9 \<and>
   hierarchical_type ''page'' = Some \<lparr> hierarchical = True \<rparr> \<and>
   hierarchical \<lparr> hierarchical = True \<rparr> \<and>
   records_store scenario_records ''postType'' ''page''
     \<lparr> per_page = - 1, exclude = 33, parent_exclude = 33,
       orderby = ''menu_order'', order = ''asc'' \<rparr> = Some scenario_records \<and>
   (\<exists>st. gutenberg_map hierarchical_type (records_store scenario_records)
            (33, ''page'', JNumber 9) = Some st \<and>
         getAncestorsFromPostsList 9 scenario_records [] = Some (post_ancestors st) \<and>
         post_ancestors st \<noteq> [] \<and> last (post_ancestors st) = 9 \<and> post_parent_id st = 9)"
proof -
  have m: "\<exists>r \<in> set scenario_records. id_prop r = 9"
    by (simp add: scenario_records_def)
  have p: "parseInt (JNumber 9) = Some 9"
    by (rule parseInt_JNumber) simp
  have t: "hierarchical_type ''page'' = Some \<lparr> hierarchical = True \<rparr>"
    by (simp add: hierarchical_type_def)
  have h: "hierarchical \<lparr> hierarchical = True \<rparr>"
    by simp
  have r: "records_store scenario_records ''postType'' ''page''
     \<lparr> per_page = - 1, exclude = 33, parent_exclude = 33,
       orderby = ''menu_order'', order = ''asc'' \<rparr> = Some scenario_records"
    by (simp add: records_store_def)
  have c: "\<exists>st. gutenberg_map hierarchical_type (records_store scenario_records)
            (33, ''page'', JNumber 9) = Some st \<and>
         getAncestorsFromPostsList 9 scenario_records [] = Some (post_ancestors st) \<and>
         post_ancestors st \<noteq> [] \<and> last (post_ancestors st) = 9 \<and> post_parent_id st = 9"
    by (rule C10_ancestors_end_with_parent[of scenario_records 9 "JNumber 9" hierarchical_type
          "''page''" "\<lparr> hierarchical = True \<rparr>" "records_store scenario_records" 33,
          OF acyclic_scenario_records m p t h r])
  from acyclic_scenario_records m p t h r c show ?thesis by blast
qed

end
